theory Spec2Isabelle
  imports Main
begin

section \<open>The data-file relocation resolver of RSMapper/io.py\<close>

text \<open>
  This theory embeds the function \<^verbatim>\<open>_try_to_find_files\<close> of
  \<^verbatim>\<open>src/RSMapper/io.py\<close> (the operation the specification calls
  \<^verbatim>\<open>locate\<close>) and the Python library calls it makes.

  Conventions of the embedding:
  \<^item> a Python \<^verbatim>\<open>str\<close> is a \<^typ>\<open>string\<close>. The only characters the code
    inspects are the slash and the backslash, both ASCII, so reading a string as its
    UTF-8 bytes changes neither the splitting nor the replacement;
  \<^item> the file system is a predicate \<open>isfile\<close> (\<^verbatim>\<open>os.path.isfile\<close>), fixed during
    one call, and the working directory \<^verbatim>\<open>os.getcwd()\<close> is the parameter \<open>cwd\<close>;
  \<^item> \<^verbatim>\<open>os.path.join\<close> is the one of \<^verbatim>\<open>posixpath\<close>;
  \<^item> list objects live in a heap indexed by addresses, because the function writes
    into the list it is given;
  \<^item> every call of \<^verbatim>\<open>os.path.isfile\<close> is recorded, in order;
  \<^item> the progress line printed on standard output is not modelled.
\<close>

subsection \<open>Strings and paths\<close>

definition backslash :: char where
  "backslash = CHR 0x5C"

definition newline :: char where
  "newline = CHR 0x0A"

text \<open>\<^verbatim>\<open>s.replace('\\', '/')\<close>\<close>

definition replace_backslash :: "string \<Rightarrow> string" where
  "replace_backslash s = map (\<lambda>c. if c = backslash then CHR ''/'' else c) s"

text \<open>\<^verbatim>\<open>s.split('/')\<close>: never the empty list; the empty string gives one empty component.\<close>

fun split_slash :: "string \<Rightarrow> string list" where
  "split_slash [] = [[]]"
| "split_slash (c # cs) =
     (if c = CHR ''/'' then [] # split_slash cs
      else (c # hd (split_slash cs)) # tl (split_slash cs))"

text \<open>\<^verbatim>\<open>sep.join(ws)\<close>\<close>

fun str_join :: "string \<Rightarrow> string list \<Rightarrow> string" where
  "str_join sep [] = []"
| "str_join sep [w] = w"
| "str_join sep (w # v # ws) = w @ sep @ str_join sep (v # ws)"

text \<open>
  \<^verbatim>\<open>os.path.join(a, b)\<close> of \<^verbatim>\<open>posixpath\<close>: an absolute \<open>b\<close> discards \<open>a\<close>; an
  empty \<open>a\<close>, or one that ends with a slash, is followed by \<open>b\<close> directly; otherwise a
  slash is put between them.
\<close>

definition path_join :: "string \<Rightarrow> string \<Rightarrow> string" where
  "path_join a b =
     (if b \<noteq> [] \<and> hd b = CHR ''/'' then b
      else if a = [] \<or> last a = CHR ''/'' then a @ b
      else a @ ''/'' @ b)"

subsection \<open>Expansion of the start directories (lines 84 to 101)\<close>

text \<open>
  The body of the inner loop over \<open>j\<close>: \<^verbatim>\<open>split_srch_path[:-(j+1)]\<close> keeps the first
  \<open>len - (j+1)\<close> components (\<open>j + 1\<close> never exceeds the length inside the loop), and the
  joined result is appended to the list.
\<close>

definition append_extra_path :: "string list \<Rightarrow> string list \<Rightarrow> nat \<Rightarrow> string list" where
  "append_extra_path split_srch_path dirs j =
     dirs @ [str_join ''/'' (take (length split_srch_path - (j + 1)) split_srch_path)]"

text \<open>The body of the outer loop at index \<open>i\<close>, which is always in range.\<close>

definition extend_start_directories :: "string list \<Rightarrow> nat \<Rightarrow> string list" where
  "extend_start_directories dirs i =
     (let split_srch_path = split_slash (dirs ! i)
      in foldl (append_extra_path split_srch_path) dirs [0..<length split_srch_path])"

text \<open>
  The list \<^verbatim>\<open>local_start_directories\<close> when the loop over the file names begins.
  The outer loop runs over the directories present before any ancestor was appended.
\<close>

definition local_start_directories :: "string \<Rightarrow> string list \<Rightarrow> string list" where
  "local_start_directories cwd additional_search_paths =
     (let start_dirs = [cwd] @ additional_search_paths;
          dirs = map replace_backslash start_dirs;
          num_start_directories = length dirs
      in foldl extend_start_directories dirs [0..<num_start_directories])"

subsection \<open>Candidates of one file name (lines 121 to 127)\<close>

definition local_guess :: "string list \<Rightarrow> nat \<Rightarrow> string" where
  "local_guess split_file_path j = str_join ''/'' (drop j split_file_path)"

definition candidate_paths :: "string list \<Rightarrow> string \<Rightarrow> string list" where
  "candidate_paths dirs fn =
     (let split_file_path = split_slash fn
      in foldl
           (\<lambda>cands j.
              foldl (\<lambda>cs start_dir. cs @ [path_join start_dir (local_guess split_file_path j)])
                cands dirs)
           [] [0..<length split_file_path])"

subsection \<open>The search among the candidates (lines 131 to 138)\<close>

text \<open>
  The loop over the candidates, leaving at the first one that is a file: the existence
  checks it made, in order, and the candidate found, if any.
\<close>

fun first_file :: "(string \<Rightarrow> bool) \<Rightarrow> string list \<Rightarrow> string list \<times> string option" where
  "first_file isfile [] = ([], None)"
| "first_file isfile (candidate_path # rest) =
     (if isfile candidate_path then ([candidate_path], Some candidate_path)
      else (candidate_path # fst (first_file isfile rest), snd (first_file isfile rest)))"

subsection \<open>Errors\<close>

datatype error = TypeError | FileNotFoundError string

definition not_found_message :: "string \<Rightarrow> string list \<Rightarrow> string" where
  "not_found_message fn cands =
     ''The data file with the name '' @ fn @ '' could '' @
     ''not be found. The following paths were searched:'' @ [newline] @
     str_join [newline] cands"

subsection \<open>One file name (lines 109 to 146)\<close>

text \<open>
  What one iteration does with the normalised file name \<open>fn\<close>: the existence checks it
  makes, and either the path appended to \<^verbatim>\<open>found_files\<close> or the exception raised.
\<close>

definition resolve_path ::
    "(string \<Rightarrow> bool) \<Rightarrow> string list \<Rightarrow> string \<Rightarrow> string list \<times> (error + string)" where
  "resolve_path isfile dirs fn =
     (if isfile fn then ([fn], Inr fn)
      else
        (let cands = candidate_paths dirs fn;
             search = first_file isfile cands
         in case snd search of
              Some candidate_path \<Rightarrow> (fn # fst search, Inr candidate_path)
            | None \<Rightarrow> (fn # fst search, Inl (FileNotFoundError (not_found_message fn cands)))))"

subsection \<open>The loop over the file names (lines 104 to 146)\<close>

record run =
  filenames :: "string list"
  found_files :: "string list"
  checked :: "string list"
  raised :: "error option"

text \<open>
  The loop visits the indices of the list in order. Each iteration first overwrites
  element \<open>i\<close> of the list with its normalised form (line 107), then resolves it. An
  exception ends the loop and leaves the list as it then is.
\<close>

fun files_loop :: "(string \<Rightarrow> bool) \<Rightarrow> string list \<Rightarrow> nat list \<Rightarrow> run \<Rightarrow> run" where
  "files_loop isfile dirs [] st = st"
| "files_loop isfile dirs (i # rest) st =
     (let fn = replace_backslash (filenames st ! i);
          r = resolve_path isfile dirs fn;
          st1 = st\<lparr>filenames := (filenames st)[i := fn], checked := checked st @ fst r\<rparr>
      in case snd r of
           Inr path \<Rightarrow> files_loop isfile dirs rest (st1\<lparr>found_files := found_files st1 @ [path]\<rparr>)
         | Inl e \<Rightarrow> st1\<lparr>raised := Some e\<rparr>)"

definition initial_run :: "string list \<Rightarrow> run" where
  "initial_run fs = \<lparr>filenames = fs, found_files = [], checked = [], raised = None\<rparr>"

definition outcome :: "run \<Rightarrow> error + string list" where
  "outcome st = (case raised st of Some e \<Rightarrow> Inl e | None \<Rightarrow> Inr (found_files st))"

subsection \<open>The function\<close>

text \<open>
  The first argument is a string, a list object (given by its address), or an object
  that is neither and has no \<^verbatim>\<open>__iter__\<close>, such as a \<^verbatim>\<open>pathlib.Path\<close>, given by
  its \<^verbatim>\<open>str()\<close>. In Python 3 a \<^verbatim>\<open>str\<close> has the attribute \<^verbatim>\<open>__iter__\<close>.
\<close>

datatype pyarg = PyStr string | PyObj string | PyList nat

type_synonym heap = "nat \<Rightarrow> string list"

fun has_iter :: "pyarg \<Rightarrow> bool" where
  "has_iter (PyStr s) = True"
| "has_iter (PyObj s) = False"
| "has_iter (PyList a) = True"

text \<open>
  The result is the heap after the call, the existence checks made, and the value
  returned or the exception raised.
  \<^item> An argument without \<^verbatim>\<open>__iter__\<close> is wrapped in a fresh list (line 82), which
    the caller never sees.
  \<^item> A list is processed in place.
  \<^item> A string is not wrapped. The loop enumerates its characters, and the assignment
    \<^verbatim>\<open>filenames[i] = ...\<close> of the first iteration raises \<^verbatim>\<open>TypeError\<close>, since a
    string has no item assignment; on the empty string the loop body never runs.
  The two remaining combinations (an iterable that is neither a string nor a list, a
  string or list without \<^verbatim>\<open>__iter__\<close>) never occur.
\<close>

definition try_to_find_files ::
    "(string \<Rightarrow> bool) \<Rightarrow> string \<Rightarrow> heap \<Rightarrow> pyarg \<Rightarrow> nat
      \<Rightarrow> heap \<times> string list \<times> (error + string list)" where
  "try_to_find_files isfile cwd h filenames_arg additional_search_paths =
     (let dirs = local_start_directories cwd (h additional_search_paths)
      in if \<not> has_iter filenames_arg then
           (case filenames_arg of
              PyObj s \<Rightarrow>
                (let st = files_loop isfile dirs [0..<1] (initial_run [s])
                 in (h, checked st, outcome st))
            | _ \<Rightarrow> (h, [], Inl TypeError))
         else
           (case filenames_arg of
              PyList a \<Rightarrow>
                (let st = files_loop isfile dirs [0..<length (h a)] (initial_run (h a))
                 in (h(a := filenames st), checked st, outcome st))
            | PyStr s \<Rightarrow> (h, [], if s = [] then Inr [] else Inl TypeError)
            | PyObj s \<Rightarrow> (h, [], Inl TypeError)))"


section \<open>Notions used in the statements\<close>

text \<open>
  The values \<^verbatim>\<open>local_guess\<close> takes in the outer loop of line 123, in order: the
  suffixes of the file name.
\<close>

definition suffixes :: "string \<Rightarrow> string list" where
  "suffixes fn = map (local_guess (split_slash fn)) [0..<length (split_slash fn)]"

text \<open>The paths the inner loop of lines 98 to 101 appends for one start directory.\<close>

definition extra_paths :: "string \<Rightarrow> string list" where
  "extra_paths search_path =
     map (\<lambda>j. str_join ''/''
            (take (length (split_slash search_path) - (j + 1)) (split_slash search_path)))
       [0..<length (split_slash search_path)]"

text \<open>
  The expanded list without the entries that come from the working directory: its first
  entry, and the block appended for it, which follows the start directories.
\<close>

definition hint_roots :: "string \<Rightarrow> string list \<Rightarrow> string list" where
  "hint_roots cwd additional_search_paths =
     (let dirs = local_start_directories cwd additional_search_paths;
          n = length additional_search_paths;
          m = length (split_slash (replace_backslash cwd))
      in take n (drop 1 dirs) @ drop (1 + n + m) dirs)"

text \<open>What the loop does with the list element \<open>p\<close>: its outcome and its existence checks.\<close>

definition resolved :: "(string \<Rightarrow> bool) \<Rightarrow> string list \<Rightarrow> string \<Rightarrow> error + string" where
  "resolved isfile dirs p = snd (resolve_path isfile dirs (replace_backslash p))"

definition checks_of :: "(string \<Rightarrow> bool) \<Rightarrow> string list \<Rightarrow> string \<Rightarrow> string list" where
  "checks_of isfile dirs p = fst (resolve_path isfile dirs (replace_backslash p))"

text \<open>
  \<^verbatim>\<open>s.split(sep)\<close> for any separator character, used to read the lines of a message;
  \<open>split_slash\<close> is its instance for the slash.
\<close>

fun split_on :: "char \<Rightarrow> string \<Rightarrow> string list" where
  "split_on sep [] = [[]]"
| "split_on sep (c # cs) =
     (if c = sep then [] # split_on sep cs
      else (c # hd (split_on sep cs)) # tl (split_on sep cs))"

text \<open>
  The number of list elements the loop reaches: the leading ones that resolve and, when
  there is one, the first that does not.
\<close>

definition processed :: "(string \<Rightarrow> bool) \<Rightarrow> string list \<Rightarrow> string list \<Rightarrow> nat" where
  "processed isfile dirs fs =
     min (length fs) (Suc (length (takeWhile (\<lambda>q. \<not> isl (resolved isfile dirs q)) fs)))"

text \<open>
  Concrete inputs: a path written with a backslash, a file system in which both
  spellings of it are files, the file system without files, one with two files, one with one file, and a
  heap whose list at address 0 holds the given file names while every other list is
  empty.
\<close>

definition windows_name :: string where
  "windows_name = ''a'' @ [backslash] @ ''b''"

definition both_spellings :: "string \<Rightarrow> bool" where
  "both_spellings x = (x = windows_name \<or> x = ''a/b'')"

definition no_files :: "string \<Rightarrow> bool" where
  "no_files x = False"

definition heap_with :: "string list \<Rightarrow> heap" where
  "heap_with fs = (\<lambda>a. [])(0 := fs)"

definition two_files :: "string \<Rightarrow> bool" where
  "two_files x = (x = ''/w/b'' \<or> x = ''c'')"

definition one_file :: "string \<Rightarrow> bool" where
  "one_file x = (x = ''c'')"

section \<open>Auxiliary facts\<close>

subsection \<open>Splitting and joining\<close>

lemma split_slash_nonempty: "split_slash s \<noteq> []"
  by (induction s) auto

lemma str_join_Cons: "ws \<noteq> [] \<Longrightarrow> str_join sep (w # ws) = w @ sep @ str_join sep ws"
  by (cases ws) auto

lemma str_join_split_slash: "str_join ''/'' (split_slash s) = s"
proof (induction s)
  case Nil
  show ?case by simp
next
  case (Cons c cs)
  obtain w ws where sp: "split_slash cs = w # ws"
    using split_slash_nonempty [of cs] by (cases "split_slash cs") auto
  show ?case
  proof (cases "c = CHR ''/''")
    case True
    then show ?thesis using Cons split_slash_nonempty [of cs] by (simp add: str_join_Cons)
  next
    case False
    then show ?thesis using Cons sp by (cases ws) auto
  qed
qed

subsection \<open>The loops that build lists, in closed form\<close>

lemma foldl_append_one: "foldl (\<lambda>acc x. acc @ [f x]) acc xs = acc @ map f xs"
  by (induction xs arbitrary: acc) auto

lemma extend_start_directories_eq:
  "extend_start_directories dirs i = dirs @ extra_paths (dirs ! i)"
  unfolding extend_start_directories_def extra_paths_def Let_def
  using foldl_append_one [of "\<lambda>j. str_join ''/'' (take (length (split_slash (dirs ! i)) - (j + 1)) (split_slash (dirs ! i)))" dirs]
  by (simp add: append_extra_path_def [abs_def])

lemma foldl_extend:
  "\<forall>i \<in> set js. i < length ds \<Longrightarrow>
   foldl extend_start_directories (ds @ acc) js =
     ds @ acc @ concat (map (\<lambda>i. extra_paths (ds ! i)) js)"
proof (induction js arbitrary: acc)
  case Nil
  show ?case by simp
next
  case (Cons j js)
  have "extend_start_directories (ds @ acc) j = ds @ (acc @ extra_paths (ds ! j))"
    using Cons.prems by (simp add: extend_start_directories_eq nth_append)
  then show ?case using Cons.IH [of "acc @ extra_paths (ds ! j)"] Cons.prems by simp
qed

lemma map_nth_fun: "map (\<lambda>i. f (xs ! i)) [0..<length xs] = map f xs"
proof -
  have "map f (map ((!) xs) [0..<length xs]) = map f xs" by (simp only: map_nth)
  then show ?thesis by (simp only: map_map comp_def)
qed

lemma local_start_directories_eq:
  "local_start_directories cwd asp =
     map replace_backslash (cwd # asp) @
     concat (map extra_paths (map replace_backslash (cwd # asp)))"
proof -
  let ?ds = "map replace_backslash (cwd # asp)"
  have "foldl extend_start_directories (?ds @ []) [0..<length ?ds]
      = ?ds @ [] @ concat (map (\<lambda>i. extra_paths (?ds ! i)) [0..<length ?ds])"
    by (rule foldl_extend) simp
  moreover have "map (\<lambda>i. extra_paths (?ds ! i)) [0..<length ?ds] = map extra_paths ?ds"
    by (rule map_nth_fun)
  ultimately show ?thesis
    by (simp add: local_start_directories_def Let_def del: list.map upt_Suc)
qed

lemma candidate_paths_eq:
  "candidate_paths dirs fn =
     concat (map (\<lambda>j. map (\<lambda>d. path_join d (local_guess (split_slash fn) j)) dirs)
       [0..<length (split_slash fn)])"
proof -
  have inner: "\<And>cands j.
      foldl (\<lambda>cs start_dir. cs @ [path_join start_dir (local_guess (split_slash fn) j)]) cands dirs
      = cands @ map (\<lambda>d. path_join d (local_guess (split_slash fn) j)) dirs"
    by (rule foldl_append_one)
  have outer: "\<And>acc js.
      foldl (\<lambda>cands j. cands @ map (\<lambda>d. path_join d (local_guess (split_slash fn) j)) dirs) acc js
      = acc @ concat (map (\<lambda>j. map (\<lambda>d. path_join d (local_guess (split_slash fn) j)) dirs) js)"
    subgoal for acc js by (induction js arbitrary: acc) auto
    done
  show ?thesis
    unfolding candidate_paths_def Let_def inner outer by simp
qed

subsection \<open>The loop over the file names\<close>

lemma files_loop_step_ok:
  assumes "drop k (filenames st) = p # ps" and "resolved isfile dirs p = Inr x"
  shows "files_loop isfile dirs [k..<length (filenames st)] st =
         files_loop isfile dirs [Suc k..<length (filenames st)]
           (st\<lparr>filenames := (filenames st)[k := replace_backslash p],
               checked := checked st @ checks_of isfile dirs p,
               found_files := found_files st @ [x]\<rparr>)"
proof -
  have k: "k < length (filenames st)" using assms(1) by (cases "k < length (filenames st)") auto
  have p: "filenames st ! k = p" using assms(1) by (rule nth_via_drop)
  show ?thesis
    using assms(2) by (simp add: upt_conv_Cons [OF k] p Let_def resolved_def checks_of_def)
qed

lemma files_loop_step_fail:
  assumes "drop k (filenames st) = p # ps" and "resolved isfile dirs p = Inl e"
  shows "files_loop isfile dirs [k..<length (filenames st)] st =
           st\<lparr>filenames := (filenames st)[k := replace_backslash p],
               checked := checked st @ checks_of isfile dirs p,
               raised := Some e\<rparr>"
proof -
  have k: "k < length (filenames st)" using assms(1) by (cases "k < length (filenames st)") auto
  have p: "filenames st ! k = p" using assms(1) by (rule nth_via_drop)
  show ?thesis
    using assms(2) by (simp add: upt_conv_Cons [OF k] p Let_def resolved_def checks_of_def)
qed

lemma update_at_drop:
  assumes "drop k fs = p # ps"
  shows "take (Suc k) (fs[k := y]) = take k fs @ [y]" and "drop (Suc k) (fs[k := y]) = ps"
proof -
  have k: "k < length fs" using assms by (cases "k < length fs") auto
  show "take (Suc k) (fs[k := y]) = take k fs @ [y]"
    using k by (simp add: take_Suc_conv_app_nth)
  have "drop (Suc k) fs = ps" using assms by (metis drop_Suc list.sel(3) tl_drop)
  then show "drop (Suc k) (fs[k := y]) = ps" by simp
qed

lemma list_as_take_drop:
  assumes "drop k fs = p # ps"
  shows "fs[k := y] = take k fs @ y # ps"
proof -
  have "fs[k := y] = take (Suc k) (fs[k := y]) @ drop (Suc k) (fs[k := y])"
    by (simp only: append_take_drop_id)
  then show ?thesis by (simp only: update_at_drop [OF assms, of y] append.simps append_assoc)
qed

text \<open>A run that meets a file name it cannot resolve, after any number it can.\<close>

lemma files_loop_fail:
  assumes "drop k (filenames st) = pre @ p # post"
    and "\<forall>q \<in> set pre. \<exists>x. resolved isfile dirs q = Inr x"
    and "resolved isfile dirs p = Inl e"
  shows "files_loop isfile dirs [k..<length (filenames st)] st =
           st\<lparr>filenames := take k (filenames st) @ map replace_backslash (pre @ [p]) @ post,
               checked := checked st @ concat (map (checks_of isfile dirs) (pre @ [p])),
               found_files := found_files st @ map (\<lambda>q. projr (resolved isfile dirs q)) pre,
               raised := Some e\<rparr>"
  using assms
proof (induction pre arbitrary: k st)
  case Nil
  then have d: "drop k (filenames st) = p # post" by simp
  show ?case
    using files_loop_step_fail [OF d Nil.prems(3)] list_as_take_drop [OF d] by simp
next
  case (Cons q pre)
  then have d: "drop k (filenames st) = q # (pre @ p # post)" by simp
  obtain x where x: "resolved isfile dirs q = Inr x" using Cons.prems(2) by auto
  let ?st = "st\<lparr>filenames := (filenames st)[k := replace_backslash q],
               checked := checked st @ checks_of isfile dirs q,
               found_files := found_files st @ [x]\<rparr>"
  have d': "drop (Suc k) (filenames ?st) = pre @ p # post"
    using update_at_drop(2) [OF d] by simp
  have ih: "files_loop isfile dirs [Suc k..<length (filenames ?st)] ?st =
           ?st\<lparr>filenames := take (Suc k) (filenames ?st) @ map replace_backslash (pre @ [p]) @ post,
               checked := checked ?st @ concat (map (checks_of isfile dirs) (pre @ [p])),
               found_files := found_files ?st @ map (\<lambda>q. projr (resolved isfile dirs q)) pre,
               raised := Some e\<rparr>"
    using Cons.IH [OF d'] Cons.prems(2,3) by simp
  have "files_loop isfile dirs [k..<length (filenames st)] st =
        files_loop isfile dirs [Suc k..<length (filenames ?st)] ?st"
    using files_loop_step_ok [OF d x] by simp
  also note ih
  finally show ?case using update_at_drop(1) [OF d] x by simp
qed

text \<open>A run in which every file name is resolved.\<close>

lemma files_loop_ok:
  assumes "drop k (filenames st) = ps"
    and "\<forall>q \<in> set ps. \<exists>x. resolved isfile dirs q = Inr x"
  shows "files_loop isfile dirs [k..<length (filenames st)] st =
           st\<lparr>filenames := take k (filenames st) @ map replace_backslash ps,
               checked := checked st @ concat (map (checks_of isfile dirs) ps),
               found_files := found_files st @ map (\<lambda>q. projr (resolved isfile dirs q)) ps\<rparr>"
  using assms
proof (induction ps arbitrary: k st)
  case Nil
  then have "length (filenames st) \<le> k" by simp
  then show ?case by simp
next
  case (Cons q ps)
  have d: "drop k (filenames st) = q # ps" by (rule Cons.prems(1))
  obtain x where x: "resolved isfile dirs q = Inr x" using Cons.prems(2) by auto
  let ?st = "st\<lparr>filenames := (filenames st)[k := replace_backslash q],
               checked := checked st @ checks_of isfile dirs q,
               found_files := found_files st @ [x]\<rparr>"
  have d': "drop (Suc k) (filenames ?st) = ps"
    using update_at_drop(2) [OF d] by simp
  have ih: "files_loop isfile dirs [Suc k..<length (filenames ?st)] ?st =
           ?st\<lparr>filenames := take (Suc k) (filenames ?st) @ map replace_backslash ps,
               checked := checked ?st @ concat (map (checks_of isfile dirs) ps),
               found_files := found_files ?st @ map (\<lambda>q. projr (resolved isfile dirs q)) ps\<rparr>"
    using Cons.IH [OF d'] Cons.prems(2) by simp
  have "files_loop isfile dirs [k..<length (filenames st)] st =
        files_loop isfile dirs [Suc k..<length (filenames ?st)] ?st"
    using files_loop_step_ok [OF d x] by simp
  also note ih
  finally show ?case using update_at_drop(1) [OF d] x by simp
qed

subsection \<open>Suffixes, candidates and the search\<close>

lemma suffixes_nonempty: "suffixes fn \<noteq> []"
  using split_slash_nonempty [of fn] by (simp add: suffixes_def)

lemma hd_suffixes: "hd (suffixes fn) = fn"
proof -
  have "0 < length (split_slash fn)" using split_slash_nonempty [of fn] by simp
  then have "hd (suffixes fn) = local_guess (split_slash fn) 0"
    by (simp add: suffixes_def hd_map upt_conv_Cons)
  then show ?thesis by (simp add: local_guess_def str_join_split_slash)
qed

lemma candidate_paths_suffixes:
  "candidate_paths dirs fn =
     concat (map (\<lambda>s. map (\<lambda>root. path_join root s) dirs) (suffixes fn))"
  by (simp add: candidate_paths_eq suffixes_def comp_def)

lemma length_concat_const:
  "length (concat (map (\<lambda>s. map (f s) ds) ss)) = length ss * length ds"
  by (induction ss) auto

lemma length_candidate_paths:
  "length (candidate_paths dirs fn) = length (suffixes fn) * length dirs"
  by (simp only: candidate_paths_suffixes length_concat_const)

lemma first_file_checks:
  "fst (first_file isfile cs) =
     takeWhile (\<lambda>c. \<not> isfile c) cs @ take 1 (dropWhile (\<lambda>c. \<not> isfile c) cs)"
  by (induction cs) auto

lemma first_file_found: "snd (first_file isfile cs) = find isfile cs"
  by (induction cs) auto

lemma first_file_none:
  "\<forall>c \<in> set cs. \<not> isfile c \<Longrightarrow> first_file isfile cs = (cs, None)"
  by (induction cs) (auto simp: prod_eq_iff)

lemma replace_backslash_id: "backslash \<notin> set p \<Longrightarrow> replace_backslash p = p"
  by (induction p) (auto simp: replace_backslash_def)

lemma path_join_empty_root: "path_join [] s = s"
  by (simp add: path_join_def)

lemma path_join_absolute: "fn \<noteq> [] \<Longrightarrow> hd fn = CHR ''/'' \<Longrightarrow> path_join root fn = fn"
  by (simp add: path_join_def)

lemma candidate_paths_absolute:
  assumes "fn \<noteq> []" and "hd fn = CHR ''/''"
  shows "take (length dirs) (candidate_paths dirs fn) = replicate (length dirs) fn"
proof -
  obtain rest where s: "suffixes fn = fn # rest"
    using suffixes_nonempty [of fn] hd_suffixes [of fn] by (cases "suffixes fn") auto
  have "map (\<lambda>root. path_join root fn) dirs = replicate (length dirs) fn"
    using assms by (simp add: path_join_absolute map_replicate_const)
  then show ?thesis
    by (simp add: candidate_paths_suffixes s)
qed

subsection \<open>The expanded start directories\<close>

lemma length_extra_paths: "length (extra_paths s) = length (split_slash s)"
  by (simp add: extra_paths_def)

lemma extra_paths_xyz: "extra_paths ''/x/y/z'' = [''/x/y'', ''/x'', [], []]"
  by (simp add: extra_paths_def upt_rec [of 0] upt_rec [of 1] upt_rec [of 2]  upt_rec [of 3])

lemma replace_backslash_xyz: "replace_backslash ''/x/y/z'' = ''/x/y/z''"
  by (simp add: replace_backslash_def backslash_def)

lemma hint_roots_single:
  "hint_roots cwd [h] = replace_backslash h # extra_paths (replace_backslash h)"
  by (simp add: hint_roots_def local_start_directories_eq length_extra_paths Let_def)

lemma empty_in_extra_paths: "[] \<in> set (extra_paths s)"
proof -
  let ?n = "length (split_slash s)"
  have n: "?n - 1 < ?n" using split_slash_nonempty [of s] by simp
  have "extra_paths s ! (?n - 1) = []"
    using n by (simp add: extra_paths_def del: One_nat_def)
  moreover have "?n - 1 < length (extra_paths s)" using n by (simp add: extra_paths_def)
  ultimately show ?thesis by (metis nth_mem)
qed

lemma empty_root_present: "[] \<in> set (local_start_directories cwd asp)"
  using empty_in_extra_paths [of "replace_backslash cwd"]
  by (simp add: local_start_directories_eq)

lemma name_among_candidates:
  assumes "[] \<in> set dirs"
  shows "fn \<in> set (candidate_paths dirs fn)"
proof -
  have "fn \<in> set (suffixes fn)"
    using suffixes_nonempty [of fn] hd_suffixes [of fn] by (metis hd_in_set)
  moreover have "path_join [] fn = fn" by (rule path_join_empty_root)
  ultimately show ?thesis
    using assms by (force simp: candidate_paths_suffixes)
qed

subsection \<open>The outcome of one file name\<close>

lemma resolve_path_fast: "isfile fn \<Longrightarrow> resolve_path isfile dirs fn = ([fn], Inr fn)"
  by (simp add: resolve_path_def)

lemma resolve_path_search:
  "\<not> isfile fn \<Longrightarrow>
   resolve_path isfile dirs fn =
     (fn # takeWhile (\<lambda>c. \<not> isfile c) (candidate_paths dirs fn) @
           take 1 (dropWhile (\<lambda>c. \<not> isfile c) (candidate_paths dirs fn)),
      case find isfile (candidate_paths dirs fn) of
        Some c \<Rightarrow> Inr c
      | None \<Rightarrow> Inl (FileNotFoundError (not_found_message fn (candidate_paths dirs fn))))"
  by (simp add: resolve_path_def Let_def first_file_checks first_file_found split: option.splits)

lemma resolve_path_none:
  assumes "\<not> isfile fn" and "\<forall>c \<in> set (candidate_paths dirs fn). \<not> isfile c"
  shows "resolve_path isfile dirs fn =
     (fn # candidate_paths dirs fn,
      Inl (FileNotFoundError (not_found_message fn (candidate_paths dirs fn))))"
  using assms by (simp add: resolve_path_def Let_def first_file_none)

lemma resolved_Inl_iff:
  "(\<exists>e. resolved isfile dirs p = Inl e) \<longleftrightarrow>
   \<not> isfile (replace_backslash p) \<and>
   (\<forall>c \<in> set (candidate_paths dirs (replace_backslash p)). \<not> isfile c)"
proof (cases "isfile (replace_backslash p)")
  case True
  then show ?thesis by (simp add: resolved_def resolve_path_fast)
next
  case False
  show ?thesis
  proof (cases "find isfile (candidate_paths dirs (replace_backslash p))")
    case None
    then have "\<forall>c \<in> set (candidate_paths dirs (replace_backslash p)). \<not> isfile c"
      by (auto simp: find_None_iff)
    then show ?thesis using False None
      by (simp add: resolved_def resolve_path_search)
  next
    case (Some c)
    then have "c \<in> set (candidate_paths dirs (replace_backslash p)) \<and> isfile c"
      by (auto simp: find_Some_iff)
    then show ?thesis using False Some
      by (auto simp: resolved_def resolve_path_search)
  qed
qed

lemma resolved_Inr_or_Inl:
  "(\<exists>x. resolved isfile dirs p = Inr x) \<or> (\<exists>e. resolved isfile dirs p = Inl e)"
  by (cases "resolved isfile dirs p") auto

subsection \<open>The function on a list\<close>

lemma try_list_ok:
  assumes "dirs = local_start_directories cwd (h b)"
    and "\<forall>q \<in> set (h a). \<exists>x. resolved isfile dirs q = Inr x"
  shows "try_to_find_files isfile cwd h (PyList a) b =
    (h(a := map replace_backslash (h a)),
     concat (map (checks_of isfile dirs) (h a)),
     Inr (map (\<lambda>q. projr (resolved isfile dirs q)) (h a)))"
proof -
  have "files_loop isfile dirs [0..<length (filenames (initial_run (h a)))] (initial_run (h a)) =
    (initial_run (h a))\<lparr>filenames := take 0 (filenames (initial_run (h a))) @ map replace_backslash (h a),
               checked := checked (initial_run (h a)) @ concat (map (checks_of isfile dirs) (h a)),
               found_files := found_files (initial_run (h a)) @ map (\<lambda>q. projr (resolved isfile dirs q)) (h a)\<rparr>"
    by (rule files_loop_ok) (simp_all add: initial_run_def assms(2))
  then show ?thesis
    by (simp add: try_to_find_files_def Let_def assms(1) initial_run_def outcome_def)
qed

lemma try_list_fail:
  assumes "dirs = local_start_directories cwd (h b)"
    and "h a = pre @ p # post"
    and "\<forall>q \<in> set pre. \<exists>x. resolved isfile dirs q = Inr x"
    and "resolved isfile dirs p = Inl e"
  shows "try_to_find_files isfile cwd h (PyList a) b =
    (h(a := map replace_backslash (pre @ [p]) @ post),
     concat (map (checks_of isfile dirs) (pre @ [p])),
     Inl e)"
proof -
  have "files_loop isfile dirs [0..<length (filenames (initial_run (h a)))] (initial_run (h a)) =
    (initial_run (h a))\<lparr>filenames := take 0 (filenames (initial_run (h a))) @ map replace_backslash (pre @ [p]) @ post,
               checked := checked (initial_run (h a)) @ concat (map (checks_of isfile dirs) (pre @ [p])),
               found_files := found_files (initial_run (h a)) @ map (\<lambda>q. projr (resolved isfile dirs q)) pre,
               raised := Some e\<rparr>"
    by (rule files_loop_fail) (simp_all add: initial_run_def assms(2,3,4))
  then show ?thesis
    by (simp add: try_to_find_files_def Let_def assms(1) initial_run_def outcome_def)
qed

lemma first_unresolved:
  assumes "\<exists>q \<in> set fs. \<exists>e. resolved isfile dirs q = Inl e"
  shows "\<exists>pre p post e. fs = pre @ p # post \<and>
           (\<forall>q \<in> set pre. \<exists>x. resolved isfile dirs q = Inr x) \<and>
           resolved isfile dirs p = Inl e"
proof -
  from split_list_first_prop [OF assms]
  obtain pre p post where s: "fs = pre @ p # post"
    and p: "\<exists>e. resolved isfile dirs p = Inl e"
    and pre: "\<forall>q \<in> set pre. \<not> (\<exists>e. resolved isfile dirs q = Inl e)"
    by blast
  have "\<forall>q \<in> set pre. \<exists>x. resolved isfile dirs q = Inr x"
    using pre resolved_Inr_or_Inl [of isfile dirs] by blast
  then show ?thesis using s p by blast
qed

lemma try_single_fast:
  assumes "h a = [p]" and "isfile (replace_backslash p)"
  shows "try_to_find_files isfile cwd h (PyList a) b =
           (h(a := [replace_backslash p]), [replace_backslash p], Inr [replace_backslash p])"
proof -
  let ?dirs = "local_start_directories cwd (h b)"
  have r: "resolve_path isfile ?dirs (replace_backslash p) =
      ([replace_backslash p], Inr (replace_backslash p))"
    using assms(2) by (rule resolve_path_fast)
  have "\<forall>q \<in> set (h a). \<exists>x. resolved isfile ?dirs q = Inr x"
    using r by (simp add: assms(1) resolved_def)
  from try_list_ok [OF refl this]
  show ?thesis
    using r by (simp add: assms(1) resolved_def checks_of_def)
qed

subsection \<open>The concrete inputs\<close>

lemma windows_name_normalised: "replace_backslash windows_name = ''a/b''"
  by (simp add: windows_name_def replace_backslash_def backslash_def)

lemma windows_name_differs: "windows_name \<noteq> ''a/b''"
  by (simp add: windows_name_def backslash_def)

lemma dirs_w: "local_start_directories ''/w'' [] = [''/w'', [], []]"
  by (simp add: local_start_directories_eq extra_paths_def replace_backslash_def backslash_def
      upt_rec [of 0] upt_rec [of 1])

lemma heap_with_simps: "heap_with fs 0 = fs" "heap_with fs (Suc n) = []"
  by (simp_all add: heap_with_def)

lemma cands_ab: "candidate_paths [''/w'', [], []] ''a/b'' =
    [''/w/a/b'', ''a/b'', ''a/b'', ''/w/b'', ''b'', ''b'']"
  by (simp add: candidate_paths_suffixes suffixes_def local_guess_def path_join_def
      upt_rec [of 0] upt_rec [of 1])

subsection \<open>Unresolved file names, and the heap after a call\<close>

lemma unresolved_by_candidates:
  assumes "dirs = local_start_directories cwd asp"
    and "\<forall>c \<in> set (candidate_paths dirs (replace_backslash p)). \<not> isfile c"
  shows "resolved isfile dirs p =
     Inl (FileNotFoundError
       (not_found_message (replace_backslash p) (candidate_paths dirs (replace_backslash p))))"
    and "checks_of isfile dirs p =
           replace_backslash p # candidate_paths dirs (replace_backslash p)"
    and "\<not> isfile (replace_backslash p)"
proof -
  have "[] \<in> set dirs" unfolding assms(1) by (rule empty_root_present)
  then have "replace_backslash p \<in> set (candidate_paths dirs (replace_backslash p))"
    by (rule name_among_candidates)
  then show n: "\<not> isfile (replace_backslash p)" using assms(2) by blast
  from resolve_path_none [OF n assms(2)]
  show "resolved isfile dirs p =
     Inl (FileNotFoundError
       (not_found_message (replace_backslash p) (candidate_paths dirs (replace_backslash p))))"
    and "checks_of isfile dirs p =
           replace_backslash p # candidate_paths dirs (replace_backslash p)"
    by (simp_all add: resolved_def checks_of_def)
qed

lemma map_replace_backslash_id:
  "\<forall>p \<in> set fs. backslash \<notin> set p \<Longrightarrow> map replace_backslash fs = fs"
  by (induction fs) (auto simp: replace_backslash_id)

lemma try_not_list_heap:
  "\<forall>a. arg \<noteq> PyList a \<Longrightarrow> fst (try_to_find_files isfile cwd h arg b) = h"
  by (cases arg) (simp_all add: try_to_find_files_def Let_def)

subsection \<open>Components, suffixes and the code's loop\<close>

lemma split_on_nonempty: "split_on sep s \<noteq> []"
  by (induction s) auto

lemma split_on_slash: "split_on CHR ''/'' s = split_slash s"
  by (induction s) auto

lemma split_on_plain: "sep \<notin> set w \<Longrightarrow> split_on sep w = [w]"
  by (induction w) auto

lemma split_on_append: "sep \<notin> set w \<Longrightarrow> split_on sep (w @ sep # rest) = w # split_on sep rest"
  by (induction w) auto

lemma split_on_str_join:
  "ws \<noteq> [] \<Longrightarrow> \<forall>w \<in> set ws. sep \<notin> set w \<Longrightarrow> split_on sep (str_join [sep] ws) = ws"
proof (induction ws)
  case Nil
  then show ?case by simp
next
  case (Cons w ws)
  show ?case
  proof (cases ws)
    case Nil
    then show ?thesis using Cons.prems by (simp add: split_on_plain)
  next
    case (Cons v vs)
    then have "str_join [sep] (w # ws) = w @ sep # str_join [sep] ws" by simp
    moreover have "split_on sep (str_join [sep] ws) = ws"
      using Cons.IH Cons.prems Cons by simp
    ultimately show ?thesis using Cons.prems by (simp add: split_on_append)
  qed
qed

lemma split_slash_length:
  "length (split_slash s) = Suc (length (filter (\<lambda>c. c = CHR ''/'') s))"
proof (induction s)
  case Nil
  show ?case by simp
next
  case (Cons c cs)
  have "length (tl (split_slash cs)) = length (split_slash cs) - 1" by simp
  moreover have "0 < length (split_slash cs)" using split_slash_nonempty [of cs] by simp
  ultimately show ?case using Cons by simp
qed

lemma split_slash_no_slash: "w \<in> set (split_slash s) \<Longrightarrow> CHR ''/'' \<notin> set w"
proof (induction s arbitrary: w)
  case Nil
  then show ?case by simp
next
  case (Cons c cs)
  obtain v vs where sp: "split_slash cs = v # vs"
    using split_slash_nonempty [of cs] by (cases "split_slash cs") auto
  show ?case
  proof (cases "c = CHR ''/''")
    case True
    then show ?thesis using Cons by auto
  next
    case False
    then have "w = c # v \<or> w \<in> set vs" using Cons.prems sp by simp
    then show ?thesis using False Cons.IH [of v] Cons.IH [of w] sp by auto
  qed
qed

lemma suffixes_count_last:
  "length (suffixes fn) = length (split_slash fn) \<and>
   suffixes fn \<noteq> [] \<and>
   last (suffixes fn) = last (split_slash fn)"
proof -
  let ?sp = "split_slash fn"
  have ne: "?sp \<noteq> []" by (rule split_slash_nonempty)
  then have k: "length ?sp - 1 < length ?sp" by simp
  have len: "length (suffixes fn) = length ?sp" by (simp add: suffixes_def)
  have sne: "suffixes fn \<noteq> []" using ne len by auto
  have "last (suffixes fn) = suffixes fn ! (length ?sp - 1)"
    using last_conv_nth [OF sne] len by simp
  also have "\<dots> = local_guess ?sp (length ?sp - 1)"
    using k by (simp add: suffixes_def del: One_nat_def)
  finally have l: "last (suffixes fn) = local_guess ?sp (length ?sp - 1)" .
  have "drop (length ?sp - 1) ?sp = [last ?sp]"
    using ne by (metis append_butlast_last_id append_eq_conv_conj length_butlast)
  then have "local_guess ?sp (length ?sp - 1) = last ?sp"
    by (simp add: local_guess_def)
  then show ?thesis using len sne l by simp
qed

lemma candidate_paths_empty_root: "candidate_paths [[]] fn = suffixes fn"
proof -
  have "concat (map (\<lambda>s. [s]) xs) = xs" for xs :: "string list"
    by (induction xs) auto
  then show ?thesis by (simp add: candidate_paths_suffixes path_join_empty_root)
qed

lemma candidate_paths_last_block:
  "drop ((length (split_slash fn) - 1) * length dirs) (candidate_paths dirs fn) =
     map (\<lambda>root. path_join root (last (split_slash fn))) dirs"
proof -
  let ?f = "\<lambda>s. map (\<lambda>root. path_join root s) dirs"
  have s: "suffixes fn = butlast (suffixes fn) @ [last (split_slash fn)]"
    using suffixes_count_last [of fn] by (metis append_butlast_last_id)
  have "candidate_paths dirs fn = concat (map ?f (butlast (suffixes fn) @ [last (split_slash fn)]))"
    using s candidate_paths_suffixes [of dirs fn] by simp
  then have c: "candidate_paths dirs fn =
      concat (map ?f (butlast (suffixes fn))) @ ?f (last (split_slash fn))"
    by simp
  have "length (concat (map ?f (butlast (suffixes fn)))) = length (butlast (suffixes fn)) * length dirs"
    by (rule length_concat_const)
  also have "\<dots> = (length (split_slash fn) - 1) * length dirs"
    using suffixes_count_last [of fn] by simp
  finally show ?thesis using c by simp
qed

subsection \<open>The message of the error\<close>

lemma not_found_message_text:
  "not_found_message fn cands =
     ''The data file with the name '' @ fn @
     '' could not be found. The following paths were searched:'' @ [newline] @
     str_join [newline] cands"
  by (simp add: not_found_message_def)

lemma drop_length_append: "drop (length xs) (xs @ ys) = ys"
  by simp

lemma candidates_from_message:
  assumes "cands \<noteq> []" and "\<forall>c \<in> set cands. newline \<notin> set c"
  shows "split_on newline
           (drop (84 + length fn)
              (''The data file with the name '' @ fn @
               '' could not be found. The following paths were searched:'' @ [newline] @
               str_join [newline] cands)) = cands"
proof -
  let ?H = "''The data file with the name '' @ fn @
            '' could not be found. The following paths were searched:'' @ [newline]"
  have l: "length ?H = 84 + length fn" by simp
  have "drop (length ?H) (?H @ str_join [newline] cands) = str_join [newline] cands"
    by (rule drop_length_append)
  then have "drop (84 + length fn) (?H @ str_join [newline] cands) = str_join [newline] cands"
    by (simp only: l)
  then show ?thesis
    using split_on_str_join [OF assms] by (simp only: append_assoc)
qed

lemma try_list_unresolved:
  assumes "dirs = local_start_directories cwd (h b)"
    and "h a = pre @ p # post"
    and "\<forall>q \<in> set pre. \<exists>x. resolved isfile dirs q = Inr x"
    and "\<forall>c \<in> set (candidate_paths dirs (replace_backslash p)). \<not> isfile c"
  shows "try_to_find_files isfile cwd h (PyList a) b =
    (h(a := map replace_backslash pre @ replace_backslash p # post),
     concat (map (checks_of isfile dirs) pre) @
       replace_backslash p # candidate_paths dirs (replace_backslash p),
     Inl (FileNotFoundError
       (''The data file with the name '' @ replace_backslash p @
        '' could not be found. The following paths were searched:'' @ [newline] @
        str_join [newline] (candidate_paths dirs (replace_backslash p)))))"
proof -
  note u = unresolved_by_candidates [OF assms(1,4)]
  from try_list_fail [OF assms(1,2,3) u(1)]
  show ?thesis by (simp add: u(2) not_found_message_text)
qed

subsection \<open>How far the loop gets\<close>

lemma takeWhile_all: "\<forall>x \<in> set xs. P x \<Longrightarrow> takeWhile P xs = xs"
  by (induction xs) auto

lemma takeWhile_first_fail:
  "\<forall>x \<in> set pre. P x \<Longrightarrow> \<not> P p \<Longrightarrow> takeWhile P (pre @ p # post) = pre"
  by (induction pre) auto

lemma not_isl_resolved:
  "(\<not> isl (resolved isfile dirs q)) = (\<exists>x. resolved isfile dirs q = Inr x)"
  by (cases "resolved isfile dirs q") auto

lemma processed_all:
  assumes "\<forall>q \<in> set fs. \<exists>x. resolved isfile dirs q = Inr x"
  shows "processed isfile dirs fs = length fs"
proof -
  have "takeWhile (\<lambda>q. \<not> isl (resolved isfile dirs q)) fs = fs"
    by (rule takeWhile_all) (simp add: not_isl_resolved assms)
  then have "processed isfile dirs fs = min (length fs) (Suc (length fs))"
    by (simp only: processed_def)
  then show ?thesis by simp
qed

lemma processed_first_fail:
  assumes "\<forall>q \<in> set pre. \<exists>x. resolved isfile dirs q = Inr x"
    and "resolved isfile dirs p = Inl e"
  shows "processed isfile dirs (pre @ p # post) = Suc (length pre)"
proof -
  have "takeWhile (\<lambda>q. \<not> isl (resolved isfile dirs q)) (pre @ p # post) = pre"
    by (rule takeWhile_first_fail) (simp_all add: not_isl_resolved assms)
  then have "processed isfile dirs (pre @ p # post) =
      min (length (pre @ p # post)) (Suc (length pre))"
    by (simp only: processed_def)
  then show ?thesis by simp
qed

lemma processed_le: "processed isfile dirs fs \<le> length fs"
  by (simp add: processed_def)

lemma try_list_heap_exact:
  assumes "dirs = local_start_directories cwd (h b)"
  shows "fst (try_to_find_files isfile cwd h (PyList a) b) =
           h(a := map replace_backslash (take (processed isfile dirs (h a)) (h a)) @
                  drop (processed isfile dirs (h a)) (h a)) \<and>
         ((\<exists>found. snd (snd (try_to_find_files isfile cwd h (PyList a) b)) = Inr found) \<longrightarrow>
            processed isfile dirs (h a) = length (h a))"
proof (cases "\<exists>q \<in> set (h a). \<exists>e. resolved isfile dirs q = Inl e")
  case True
  from first_unresolved [OF True]
  obtain pre p post e where s: "h a = pre @ p # post"
    and pre: "\<forall>q \<in> set pre. \<exists>x. resolved isfile dirs q = Inr x"
    and p: "resolved isfile dirs p = Inl e"
    by blast
  have m: "processed isfile dirs (h a) = Suc (length pre)"
    unfolding s using pre p by (rule processed_first_fail)
  have "take (Suc (length pre)) (h a) = pre @ [p]" "drop (Suc (length pre)) (h a) = post"
    using s by simp_all
  then show ?thesis using try_list_fail [OF assms s pre p] m by simp
next
  case False
  then have all: "\<forall>q \<in> set (h a). \<exists>x. resolved isfile dirs q = Inr x"
    using resolved_Inr_or_Inl [of isfile dirs] by blast
  have "processed isfile dirs (h a) = length (h a)"
    using all by (rule processed_all)
  then show ?thesis using try_list_ok [OF assms all] by simp
qed

section \<open>The claims\<close>

text \<open>
  C7. The components of a path are what splitting at the slash gives: one more than
  there are slashes, none containing a slash, and joined by slashes they give the path
  back. The loop of lines 123 to 127 generates one suffix per component: its candidates
  are the joins of every root to each suffix in turn, so with the empty root alone it
  yields the list of the suffixes itself, which has as many entries as the path has
  components and ends with the final component; with any roots, the candidates number
  the components times the roots, and the last block of them joins every root to the
  final component alone.
\<close>

theorem suffix_count_and_last:
  "length (split_slash fn) = Suc (length (filter (\<lambda>c. c = CHR ''/'') fn)) \<and>
   (\<forall>w \<in> set (split_slash fn). CHR ''/'' \<notin> set w) \<and>
   str_join ''/'' (split_slash fn) = fn \<and>
   candidate_paths dirs fn =
     concat (map (\<lambda>s. map (\<lambda>root. path_join root s) dirs) (suffixes fn)) \<and>
   candidate_paths [[]] fn = suffixes fn \<and>
   length (candidate_paths [[]] fn) = length (split_slash fn) \<and>
   last (candidate_paths [[]] fn) = last (split_slash fn) \<and>
   length (candidate_paths dirs fn) = length (split_slash fn) * length dirs \<and>
   drop ((length (split_slash fn) - 1) * length dirs) (candidate_paths dirs fn) =
     map (\<lambda>root. path_join root (last (split_slash fn))) dirs \<and>
   length (suffixes fn) = length (split_slash fn) \<and>
   suffixes fn \<noteq> [] \<and>
   last (suffixes fn) = last (split_slash fn)"
proof -
  note c = suffixes_count_last [of fn]
  have "length (candidate_paths dirs fn) = length (split_slash fn) * length dirs"
    using c by (simp add: length_candidate_paths)
  moreover have "\<forall>w \<in> set (split_slash fn). CHR ''/'' \<notin> set w"
    using split_slash_no_slash by blast
  moreover note split_slash_length [of fn] str_join_split_slash [of fn]
    candidate_paths_suffixes [of dirs fn] candidate_paths_last_block [of fn dirs]
  ultimately show ?thesis
    using c by (simp only: candidate_paths_empty_root simp_thms)
qed

text \<open>
  The path \<^verbatim>\<open>/data/img.tif\<close>: three components, the first one empty, and three
  suffixes, the last one \<^verbatim>\<open>img.tif\<close>.
\<close>

theorem suffix_count_and_last_witness:
  "split_slash ''/data/img.tif'' = [[], ''data'', ''img.tif''] \<and>
   length (filter (\<lambda>c. c = CHR ''/'') ''/data/img.tif'') = 2 \<and>
   candidate_paths [[]] ''/data/img.tif'' = [''/data/img.tif'', ''data/img.tif'', ''img.tif''] \<and>
   length (candidate_paths [[]] ''/data/img.tif'') = length (split_slash ''/data/img.tif'') \<and>
   last (candidate_paths [[]] ''/data/img.tif'') = last (split_slash ''/data/img.tif'') \<and>
   candidate_paths [''/w'', []] ''/data/img.tif'' =
     [''/data/img.tif'', ''/data/img.tif'', ''/w/data/img.tif'', ''data/img.tif'',
      ''/w/img.tif'', ''img.tif''] \<and>
   drop ((length (split_slash ''/data/img.tif'') - 1) * length [''/w'', []])
       (candidate_paths [''/w'', []] ''/data/img.tif'') = [''/w/img.tif'', ''img.tif'']"
proof -
  have 1: "split_slash ''/data/img.tif'' = [[], ''data'', ''img.tif'']" by code_simp
  have 2: "length (filter (\<lambda>c. c = CHR ''/'') ''/data/img.tif'') = 2" by code_simp
  have 3: "candidate_paths [[]] ''/data/img.tif'' = [''/data/img.tif'', ''data/img.tif'', ''img.tif'']"
    by code_simp
  have 4: "candidate_paths [''/w'', []] ''/data/img.tif'' =
     [''/data/img.tif'', ''/data/img.tif'', ''/w/data/img.tif'', ''data/img.tif'',
      ''/w/img.tif'', ''img.tif'']"
    by code_simp
  note t = suffix_count_and_last [of "''/data/img.tif''" "[''/w'', []]"]
  have 5: "length (candidate_paths [[]] ''/data/img.tif'') = length (split_slash ''/data/img.tif'')"
    using t by blast
  have 6: "last (candidate_paths [[]] ''/data/img.tif'') = last (split_slash ''/data/img.tif'')"
    using t by blast
  have "drop ((length (split_slash ''/data/img.tif'') - 1) * length [''/w'', []])
       (candidate_paths [''/w'', []] ''/data/img.tif'') =
     map (\<lambda>root. path_join root (last (split_slash ''/data/img.tif''))) [''/w'', []]"
    using t by blast
  moreover have "map (\<lambda>root. path_join root (last (split_slash ''/data/img.tif''))) [''/w'', []] =
      [''/w/img.tif'', ''img.tif'']"
    by code_simp
  ultimately have 7: "drop ((length (split_slash ''/data/img.tif'') - 1) * length [''/w'', []])
       (candidate_paths [''/w'', []] ''/data/img.tif'') = [''/w/img.tif'', ''img.tif'']"
    by (rule trans)
  show ?thesis using 1 2 3 4 5 6 7 by blast
qed

text \<open>
  C10. When the normalised file name is absolute (begins with a slash), the first
  suffix is the whole name, so it is absolute too; joining it to any root gives the
  name unchanged; and the first candidates, as many as there are roots, are all the
  normalised name itself, whatever the roots are.
\<close>

theorem absolute_name_discards_roots:
  assumes "fn = replace_backslash p" and "fn \<noteq> []" and "hd fn = CHR ''/''"
  shows "hd (suffixes fn) = fn \<and>
         path_join root fn = fn \<and>
         take (length dirs) (candidate_paths dirs fn) = replicate (length dirs) fn"
  using assms(2,3) by (simp add: hd_suffixes path_join_absolute candidate_paths_absolute)

text \<open>The statement at the name \<^verbatim>\<open>/a/b\<close> with the roots \<^verbatim>\<open>/w\<close> and the empty one.\<close>

theorem absolute_name_discards_roots_witness:
  "replace_backslash ''/a/b'' = ''/a/b'' \<and>
   hd (suffixes ''/a/b'') = ''/a/b'' \<and>
   path_join ''/w'' ''/a/b'' = ''/a/b'' \<and>
   take 2 (candidate_paths [''/w'', []] ''/a/b'') = [''/a/b'', ''/a/b'']"
proof -
  have n: "replace_backslash ''/a/b'' = ''/a/b''" by (simp add: replace_backslash_def backslash_def)
  show ?thesis
    using absolute_name_discards_roots [of "''/a/b''" "''/a/b''" "''/w''" "[''/w'', []]"] n
    by (simp add: numeral_2_eq_2)
qed

text \<open>
  C1. The claim is that a bare string is treated as a list of one path. The code does
  not do so: a string has \<^verbatim>\<open>__iter__\<close>, so line 82 does not wrap it, and every
  non-empty bare string makes the call raise \<^verbatim>\<open>TypeError\<close> before any existence
  check, the heap being untouched.
\<close>

theorem bare_string_raises:
  "s \<noteq> [] \<Longrightarrow> try_to_find_files isfile cwd h (PyStr s) b = (h, [], Inl TypeError)"
  by (simp add: try_to_find_files_def)

text \<open>The bare string \<^verbatim>\<open>img.tif\<close>, although a file of that name exists.\<close>

theorem bare_string_raises_witness:
  "''img.tif'' \<noteq> [] \<and>
   snd (try_to_find_files (\<lambda>x. x = ''img.tif'') ''/w'' (heap_with []) (PyStr ''img.tif'') 1)
     = ([], Inl TypeError)"
  using bare_string_raises [of "''img.tif''" "\<lambda>x. x = ''img.tif''" "''/w''" "heap_with []" 1]
  by simp

text \<open>
  C3, as amended. The expanded list is the normalised start directories (the working
  directory, then the hints in the order supplied), followed by the paths appended for
  each of them in the same order. What is appended for \<^verbatim>\<open>/x/y/z\<close> is \<^verbatim>\<open>/x/y\<close>,
  \<^verbatim>\<open>/x\<close> and the empty path twice; so for the single hint \<^verbatim>\<open>/x/y/z\<close> the
  expanded list without the entries of the working directory is \<^verbatim>\<open>/x/y/z\<close>,
  \<^verbatim>\<open>/x/y\<close>, \<^verbatim>\<open>/x\<close> and two empty paths.
\<close>

theorem root_expansion_order:
  "local_start_directories cwd hints =
     map replace_backslash (cwd # hints) @
     concat (map extra_paths (map replace_backslash (cwd # hints))) \<and>
   extra_paths ''/x/y/z'' = [''/x/y'', ''/x'', [], []] \<and>
   hint_roots cwd [''/x/y/z''] = [''/x/y/z'', ''/x/y'', ''/x'', [], []]"
  by (simp only: local_start_directories_eq hint_roots_single extra_paths_xyz
      replace_backslash_xyz simp_thms)

text \<open>
  C3 as stated fails in the working directory \<^verbatim>\<open>/w\<close>: the hint is followed by the
  two paths appended for the working directory, not by its own ancestors, and the
  entries of the hint are five, not the four of the claim.
\<close>

theorem root_expansion_counterexample:
  "local_start_directories ''/w'' [''/x/y/z''] =
     [''/w'', ''/x/y/z'', [], [], ''/x/y'', ''/x'', [], []] \<and>
   hint_roots ''/w'' [''/x/y/z''] \<noteq> [''/x/y/z'', ''/x/y'', ''/x'', []]"
proof -
  have w: "extra_paths ''/w'' = [[], []]"
    by (simp add: extra_paths_def upt_rec [of 0] upt_rec [of 1])
  have r: "replace_backslash ''/w'' = ''/w''" by (simp add: replace_backslash_def backslash_def)
  show ?thesis
    by (simp add: local_start_directories_eq hint_roots_single extra_paths_xyz
        replace_backslash_xyz w r)
qed

text \<open>
  C5, as amended. When the list holds the one path \<open>p\<close> and the normalised form of
  \<open>p\<close> is a file, the call returns the list of that normalised form, after one
  existence check and no other, whatever the search roots are; the list of the caller
  then holds the normalised form. When \<open>p\<close> has no backslash, this is \<open>p\<close> itself
  and nothing changes.
\<close>

theorem fast_path:
  assumes "h a = [p]" and "isfile (replace_backslash p)"
  shows "try_to_find_files isfile cwd h (PyList a) b =
           (h(a := [replace_backslash p]), [replace_backslash p], Inr [replace_backslash p]) \<and>
         (backslash \<notin> set p \<longrightarrow>
            try_to_find_files isfile cwd h (PyList a) b = (h, [p], Inr [p]))"
proof -
  have 1: "try_to_find_files isfile cwd h (PyList a) b =
           (h(a := [replace_backslash p]), [replace_backslash p], Inr [replace_backslash p])"
    using assms by (rule try_single_fast)
  have "h(a := [p]) = h" using assms(1) by auto
  then show ?thesis using 1 by (auto simp: replace_backslash_id)
qed

text \<open>The existing file \<^verbatim>\<open>/d/img.tif\<close>, no search roots.\<close>

theorem fast_path_witness:
  "heap_with [''/d/img.tif''] 0 = [''/d/img.tif''] \<and>
   replace_backslash ''/d/img.tif'' = ''/d/img.tif'' \<and>
   try_to_find_files (\<lambda>x. x = ''/d/img.tif'') ''/w'' (heap_with [''/d/img.tif'']) (PyList 0) 1 =
     (heap_with [''/d/img.tif''], [''/d/img.tif''], Inr [''/d/img.tif''])"
proof -
  have n: "replace_backslash ''/d/img.tif'' = ''/d/img.tif''"
    by (simp add: replace_backslash_def backslash_def)
  have b: "backslash \<notin> set ''/d/img.tif''" by (simp add: backslash_def)
  show ?thesis
    using fast_path [of "heap_with [''/d/img.tif'']" 0 "''/d/img.tif''" "\<lambda>x. x = ''/d/img.tif''" "''/w''" 1]
      n b
    by (simp add: heap_with_def)
qed

text \<open>
  C5 as stated fails for a path written with a backslash: it exists, and the call
  with no search roots returns the spelling with a slash, a different string.
\<close>

theorem fast_path_counterexample:
  "both_spellings windows_name \<and>
   try_to_find_files both_spellings ''/w'' (heap_with [windows_name]) (PyList 0) 1 =
     (heap_with [''a/b''], [''a/b''], Inr [''a/b'']) \<and>
   [''a/b''] \<noteq> [windows_name]"
proof -
  have "both_spellings (replace_backslash windows_name)"
    by (simp add: windows_name_normalised both_spellings_def)
  then have "try_to_find_files both_spellings ''/w'' (heap_with [windows_name]) (PyList 0) 1 =
     ((heap_with [windows_name])(0 := [''a/b'']), [''a/b''], Inr [''a/b''])"
    using try_single_fast [of "heap_with [windows_name]" 0 windows_name both_spellings "''/w''" 1]
    by (simp add: windows_name_normalised heap_with_simps)
  moreover have "(heap_with [windows_name])(0 := [''a/b'']) = heap_with [''a/b'']"
    by (simp add: heap_with_def)
  ultimately show ?thesis
    using windows_name_differs by (simp add: both_spellings_def)
qed

text \<open>
  C6. For a normalised file name that is not itself a file: the suffixes are generated
  from the whole name down, the one of index \<open>j\<close> dropping the first \<open>j\<close> components;
  the candidates are, for each suffix in that order, its join to every root in the order
  of the root list; joining to the empty root gives the suffix; and the existence
  checks made are the name, then the candidates up to and including the first one
  that is a file, which is the result. No later candidate is checked. When no candidate
  is a file, all are checked and the result is the error.
\<close>

theorem candidate_order_and_first_match:
  assumes "\<not> isfile fn"
  shows "suffixes fn = map (\<lambda>j. str_join ''/'' (drop j (split_slash fn))) [0..<length (split_slash fn)] \<and>
         hd (suffixes fn) = fn \<and>
         candidate_paths dirs fn =
           concat (map (\<lambda>s. map (\<lambda>root. path_join root s) dirs) (suffixes fn)) \<and>
         path_join [] s = s \<and>
         resolve_path isfile dirs fn =
           (fn # takeWhile (\<lambda>c. \<not> isfile c) (candidate_paths dirs fn) @
                 take 1 (dropWhile (\<lambda>c. \<not> isfile c) (candidate_paths dirs fn)),
            case find isfile (candidate_paths dirs fn) of
              Some c \<Rightarrow> Inr c
            | None \<Rightarrow> Inl (FileNotFoundError (not_found_message fn (candidate_paths dirs fn))))"
proof -
  have "suffixes fn = map (\<lambda>j. str_join ''/'' (drop j (split_slash fn))) [0..<length (split_slash fn)]"
    by (simp add: suffixes_def local_guess_def [abs_def])
  moreover have "resolve_path isfile dirs fn =
           (fn # takeWhile (\<lambda>c. \<not> isfile c) (candidate_paths dirs fn) @
                 take 1 (dropWhile (\<lambda>c. \<not> isfile c) (candidate_paths dirs fn)),
            case find isfile (candidate_paths dirs fn) of
              Some c \<Rightarrow> Inr c
            | None \<Rightarrow> Inl (FileNotFoundError (not_found_message fn (candidate_paths dirs fn))))"
    using assms by (rule resolve_path_search)
  moreover note hd_suffixes [of fn] candidate_paths_suffixes [of dirs fn]
    path_join_empty_root [of s]
  ultimately show ?thesis by (simp only: simp_thms)
qed

text \<open>
  The name \<^verbatim>\<open>a/b\<close> with the roots of the working directory \<^verbatim>\<open>/w\<close>, when the
  files are \<^verbatim>\<open>/w/b\<close> and \<^verbatim>\<open>b\<close>: the search ends at the fourth candidate.
\<close>

theorem candidate_order_and_first_match_witness:
  "\<not> (\<lambda>x. x = ''/w/b'' \<or> x = ''b'') ''a/b'' \<and>
   candidate_paths [''/w'', [], []] ''a/b'' = [''/w/a/b'', ''a/b'', ''a/b'', ''/w/b'', ''b'', ''b''] \<and>
   resolve_path (\<lambda>x. x = ''/w/b'' \<or> x = ''b'') [''/w'', [], []] ''a/b'' =
     ([''a/b'', ''/w/a/b'', ''a/b'', ''a/b'', ''/w/b''], Inr ''/w/b'')"
proof -
  have n: "\<not> (\<lambda>x. x = ''/w/b'' \<or> x = ''b'') ''a/b''" by simp
  show ?thesis
    using candidate_order_and_first_match
      [of "\<lambda>x. x = ''/w/b'' \<or> x = ''b''" "''a/b''" "[''/w'', [], []]" "[]"]
    by (simp add: cands_ab)
qed

text \<open>
  C4, as amended. When the loop reaches a path \<open>p\<close> of the list (the paths before it
  resolve) and no candidate of its normalised form \<open>fn\<close> is a file, the call raises
  the error whose message is the fixed text with \<open>fn\<close> in it, followed by the
  candidates, one per line, in the order tested: suffix by suffix, every root for each.
  Every candidate was tested, after \<open>fn\<close> itself. The candidates number the suffixes
  times the roots, and the suffixes number the components. When no candidate contains
  a line break, the list of candidates is read back from the message by splitting what
  follows the first line. The path in the message is the normalised one, which is the
  original path when that has no backslash.
\<close>

theorem exhausted_search_failure:
  assumes "dirs = local_start_directories cwd (h b)"
    and "h a = pre @ p # post"
    and "\<forall>q \<in> set pre. \<exists>x. resolved isfile dirs q = Inr x"
    and "fn = replace_backslash p"
    and "cands = candidate_paths dirs fn"
    and "\<forall>c \<in> set cands. \<not> isfile c"
    and "msg = ''The data file with the name '' @ fn @
               '' could not be found. The following paths were searched:'' @ [newline] @
               str_join [newline] cands"
  shows "try_to_find_files isfile cwd h (PyList a) b =
           (h(a := map replace_backslash pre @ fn # post),
            concat (map (checks_of isfile dirs) pre) @ fn # cands,
            Inl (FileNotFoundError msg)) \<and>
         cands = concat (map (\<lambda>s. map (\<lambda>root. path_join root s) dirs) (suffixes fn)) \<and>
         length cands = length (suffixes fn) * length dirs \<and>
         length (suffixes fn) = length (split_slash fn) \<and>
         ((\<forall>c \<in> set cands. newline \<notin> set c) \<longrightarrow>
            split_on newline (drop (84 + length fn) msg) = cands) \<and>
         (backslash \<notin> set p \<longrightarrow> fn = p)"
proof -
  have c: "\<forall>c \<in> set (candidate_paths dirs (replace_backslash p)). \<not> isfile c"
    using assms(4,5,6) by simp
  have 1: "try_to_find_files isfile cwd h (PyList a) b =
           (h(a := map replace_backslash pre @ fn # post),
            concat (map (checks_of isfile dirs) pre) @ fn # cands,
            Inl (FileNotFoundError msg))"
    using try_list_unresolved [OF assms(1,2,3) c] assms(4,5,7) by simp
  have "[] \<in> set dirs" unfolding assms(1) by (rule empty_root_present)
  then have "fn \<in> set cands" unfolding assms(5) by (rule name_among_candidates)
  then have ne: "cands \<noteq> []" by auto
  have 2: "split_on newline (drop (84 + length fn) msg) = cands"
    if "\<forall>c \<in> set cands. newline \<notin> set c"
    unfolding assms(7) using ne that by (rule candidates_from_message)
  have 3: "cands = concat (map (\<lambda>s. map (\<lambda>root. path_join root s) dirs) (suffixes fn))"
    unfolding assms(5) by (rule candidate_paths_suffixes)
  have 4: "length cands = length (suffixes fn) * length dirs"
    unfolding assms(5) by (rule length_candidate_paths)
  have 5: "length (suffixes fn) = length (split_slash fn)"
    using suffixes_count_last [of fn] by simp
  have 6: "backslash \<notin> set p \<longrightarrow> fn = p"
    using assms(4) by (simp add: replace_backslash_id)
  show ?thesis using 1 2 3 4 5 6 by blast
qed

text \<open>
  The list \<^verbatim>\<open>c\<close>, \<^verbatim>\<open>x/y\<close>, \<^verbatim>\<open>c\<close> in the working directory \<^verbatim>\<open>/w\<close> when the
  files are \<^verbatim>\<open>/w/b\<close> and \<^verbatim>\<open>c\<close>: two suffixes, three roots, six candidates, and the
  message in full.
\<close>

theorem exhausted_search_failure_witness:
  "try_to_find_files two_files ''/w'' (heap_with [''c'', ''x/y'', ''c'']) (PyList 0) 1 =
     ((heap_with [''c'', ''x/y'', ''c''])(0 := map replace_backslash [''c''] @ ''x/y'' # [''c'']),
      concat (map (checks_of two_files [''/w'', [], []]) [''c'']) @
        ''x/y'' # [''/w/x/y'', ''x/y'', ''x/y'', ''/w/y'', ''y'', ''y''],
      Inl (FileNotFoundError
        (''The data file with the name x/y could not be found. The following paths were searched:'' @
         [CHR 0x0A] @ ''/w/x/y'' @ [CHR 0x0A] @ ''x/y'' @ [CHR 0x0A] @ ''x/y'' @ [CHR 0x0A] @
         ''/w/y'' @ [CHR 0x0A] @ ''y'' @ [CHR 0x0A] @ ''y''))) \<and>
   snd (try_to_find_files two_files ''/w'' (heap_with [''c'', ''x/y'', ''c'']) (PyList 0) 1) =
     ([''c'', ''x/y'', ''/w/x/y'', ''x/y'', ''x/y'', ''/w/y'', ''y'', ''y''],
      Inl (FileNotFoundError
        (''The data file with the name x/y could not be found. The following paths were searched:'' @
         [CHR 0x0A] @ ''/w/x/y'' @ [CHR 0x0A] @ ''x/y'' @ [CHR 0x0A] @ ''x/y'' @ [CHR 0x0A] @
         ''/w/y'' @ [CHR 0x0A] @ ''y'' @ [CHR 0x0A] @ ''y''))) \<and>
   length [''/w/x/y'', ''x/y'', ''x/y'', ''/w/y'', ''y'', ''y''] =
     length (suffixes ''x/y'') * length [''/w'', [], []] \<and>
   length (suffixes ''x/y'') = length (split_slash ''x/y'') \<and>
   length (split_slash ''x/y'') = 2 \<and>
   split_on newline
     (drop (84 + length ''x/y'')
        (''The data file with the name x/y could not be found. The following paths were searched:'' @
         [CHR 0x0A] @ ''/w/x/y'' @ [CHR 0x0A] @ ''x/y'' @ [CHR 0x0A] @ ''x/y'' @ [CHR 0x0A] @
         ''/w/y'' @ [CHR 0x0A] @ ''y'' @ [CHR 0x0A] @ ''y'')) =
     [''/w/x/y'', ''x/y'', ''x/y'', ''/w/y'', ''y'', ''y'']"
proof -
  have d: "[''/w'', [], []] = local_start_directories ''/w'' (heap_with [''c'', ''x/y'', ''c''] 1)"
    by code_simp
  have s: "heap_with [''c'', ''x/y'', ''c''] 0 = [''c''] @ ''x/y'' # [''c'']"
    by code_simp
  have pre: "\<forall>q \<in> set [''c'']. \<exists>x. resolved two_files [''/w'', [], []] q = Inr x"
    by (simp add: resolved_def resolve_path_def two_files_def replace_backslash_def backslash_def)
  have n: "''x/y'' = replace_backslash ''x/y''" by code_simp
  have c: "[''/w/x/y'', ''x/y'', ''x/y'', ''/w/y'', ''y'', ''y''] = candidate_paths [''/w'', [], []] ''x/y''"
    by code_simp
  have f: "\<forall>c \<in> set [''/w/x/y'', ''x/y'', ''x/y'', ''/w/y'', ''y'', ''y'']. \<not> two_files c"
    by code_simp
  have m: "''The data file with the name x/y could not be found. The following paths were searched:'' @
         [CHR 0x0A] @ ''/w/x/y'' @ [CHR 0x0A] @ ''x/y'' @ [CHR 0x0A] @ ''x/y'' @ [CHR 0x0A] @
         ''/w/y'' @ [CHR 0x0A] @ ''y'' @ [CHR 0x0A] @ ''y'' =
      ''The data file with the name '' @ ''x/y'' @
               '' could not be found. The following paths were searched:'' @ [newline] @
               str_join [newline] [''/w/x/y'', ''x/y'', ''x/y'', ''/w/y'', ''y'', ''y'']"
    by code_simp
  have nl: "\<forall>c \<in> set [''/w/x/y'', ''x/y'', ''x/y'', ''/w/y'', ''y'', ''y'']. newline \<notin> set c"
    by code_simp
  have r: "snd (try_to_find_files two_files ''/w'' (heap_with [''c'', ''x/y'', ''c'']) (PyList 0) 1) =
     ([''c'', ''x/y'', ''/w/x/y'', ''x/y'', ''x/y'', ''/w/y'', ''y'', ''y''],
      Inl (FileNotFoundError
        (''The data file with the name x/y could not be found. The following paths were searched:'' @
         [CHR 0x0A] @ ''/w/x/y'' @ [CHR 0x0A] @ ''x/y'' @ [CHR 0x0A] @ ''x/y'' @ [CHR 0x0A] @
         ''/w/y'' @ [CHR 0x0A] @ ''y'' @ [CHR 0x0A] @ ''y'')))"
    by code_simp
  have k: "length (split_slash ''x/y'') = 2" by code_simp
  note t = exhausted_search_failure [OF d s pre n c f m]
  note t1 = t [THEN conjunct1]
  note t3 = t [THEN conjunct2, THEN conjunct2, THEN conjunct1]
  note t4 = t [THEN conjunct2, THEN conjunct2, THEN conjunct2, THEN conjunct1]
  note t5 = t [THEN conjunct2, THEN conjunct2, THEN conjunct2, THEN conjunct2, THEN conjunct1,
      THEN mp, OF nl]
  show ?thesis
    apply (intro conjI)
         apply (rule t1)
        apply (rule r)
       apply (rule t3)
      apply (rule t4)
     apply (rule k)
    apply (rule t5)
    done
qed

text \<open>
  C4 as stated fails for a path written with a backslash: the message names the
  spelling with a slash, and no backslash occurs anywhere in it, so the original path is
  not part of the failure.
\<close>

theorem exhausted_search_failure_counterexample:
  "snd (snd (try_to_find_files no_files ''/w'' (heap_with [windows_name]) (PyList 0) 1)) =
     Inl (FileNotFoundError
       (''The data file with the name a/b could not be found. The following paths were searched:'' @
        [CHR 0x0A] @ ''/w/a/b'' @ [CHR 0x0A] @ ''a/b'' @ [CHR 0x0A] @ ''a/b'' @ [CHR 0x0A] @
        ''/w/b'' @ [CHR 0x0A] @ ''b'' @ [CHR 0x0A] @ ''b'')) \<and>
   backslash \<notin> set
       (''The data file with the name a/b could not be found. The following paths were searched:'' @
        [CHR 0x0A] @ ''/w/a/b'' @ [CHR 0x0A] @ ''a/b'' @ [CHR 0x0A] @ ''a/b'' @ [CHR 0x0A] @
        ''/w/b'' @ [CHR 0x0A] @ ''b'' @ [CHR 0x0A] @ ''b'') \<and>
   backslash \<in> set windows_name"
  by code_simp

text \<open>
  C8, as amended. When no candidate of some path of the list is a file, the list splits
  at the first such path \<open>p\<close>: the paths before it are resolved, and the call raises
  the error whose message is the fixed text with the normalised form of \<open>p\<close> in it
  (which is \<open>p\<close> when \<open>p\<close> has no backslash), followed by all its candidates, one
  per line. The existence checks are those of the paths before \<open>p\<close>, then the
  normalised \<open>p\<close> and its candidates, and none for a later path; the later elements of
  the list are left as they were; and the outcome is the error alone, without any
  resolved path.
\<close>

theorem first_unresolved_stops_batch:
  assumes "dirs = local_start_directories cwd (h b)"
    and "\<exists>q \<in> set (h a). \<forall>c \<in> set (candidate_paths dirs (replace_backslash q)). \<not> isfile c"
  shows "\<exists>pre p post.
           h a = pre @ p # post \<and>
           (\<forall>q \<in> set pre. \<exists>x. resolved isfile dirs q = Inr x) \<and>
           (\<forall>c \<in> set (candidate_paths dirs (replace_backslash p)). \<not> isfile c) \<and>
           try_to_find_files isfile cwd h (PyList a) b =
             (h(a := map replace_backslash pre @ replace_backslash p # post),
              concat (map (checks_of isfile dirs) pre) @
                replace_backslash p # candidate_paths dirs (replace_backslash p),
              Inl (FileNotFoundError
                (''The data file with the name '' @ replace_backslash p @
                 '' could not be found. The following paths were searched:'' @ [newline] @
                 str_join [newline] (candidate_paths dirs (replace_backslash p))))) \<and>
           (backslash \<notin> set p \<longrightarrow> replace_backslash p = p)"
proof -
  from assms(2) obtain q where q: "q \<in> set (h a)"
    and qc: "\<forall>c \<in> set (candidate_paths dirs (replace_backslash q)). \<not> isfile c"
    by blast
  have "\<exists>q \<in> set (h a). \<exists>e. resolved isfile dirs q = Inl e"
    using q unresolved_by_candidates(1) [OF assms(1) qc] by blast
  from first_unresolved [OF this]
  obtain pre p post e where s: "h a = pre @ p # post"
    and pre: "\<forall>q \<in> set pre. \<exists>x. resolved isfile dirs q = Inr x"
    and p: "resolved isfile dirs p = Inl e"
    by blast
  have pc: "\<forall>c \<in> set (candidate_paths dirs (replace_backslash p)). \<not> isfile c"
    using p resolved_Inl_iff [of isfile dirs p] by blast
  have "backslash \<notin> set p \<longrightarrow> replace_backslash p = p"
    by (simp add: replace_backslash_id)
  with try_list_unresolved [OF assms(1) s pre pc] s pre pc
  show ?thesis by blast
qed

text \<open>
  The list \<^verbatim>\<open>c\<close>, \<^verbatim>\<open>x\<close>, \<^verbatim>\<open>c\<close> when the files are \<^verbatim>\<open>/w/b\<close> and \<^verbatim>\<open>c\<close>:
  the error is the one of \<^verbatim>\<open>x\<close>, with its message in full, and the third path is
  never checked.
\<close>

theorem first_unresolved_stops_batch_witness:
  "(\<exists>q \<in> set (heap_with [''c'', ''x'', ''c''] 0).
      \<forall>c \<in> set (candidate_paths (local_start_directories ''/w'' (heap_with [''c'', ''x'', ''c''] 1)) (replace_backslash q)). \<not> two_files c) \<and>
   (\<exists>pre p post.
           heap_with [''c'', ''x'', ''c''] 0 = pre @ p # post \<and>
           (\<forall>q \<in> set pre. \<exists>x. resolved two_files (local_start_directories ''/w'' (heap_with [''c'', ''x'', ''c''] 1)) q = Inr x) \<and>
           (\<forall>c \<in> set (candidate_paths (local_start_directories ''/w'' (heap_with [''c'', ''x'', ''c''] 1)) (replace_backslash p)). \<not> two_files c) \<and>
           try_to_find_files two_files ''/w'' (heap_with [''c'', ''x'', ''c'']) (PyList 0) 1 =
             ((heap_with [''c'', ''x'', ''c''])(0 := map replace_backslash pre @ replace_backslash p # post),
              concat (map (checks_of two_files (local_start_directories ''/w'' (heap_with [''c'', ''x'', ''c''] 1))) pre) @
                replace_backslash p # candidate_paths (local_start_directories ''/w'' (heap_with [''c'', ''x'', ''c''] 1)) (replace_backslash p),
              Inl (FileNotFoundError
                (''The data file with the name '' @ replace_backslash p @
                 '' could not be found. The following paths were searched:'' @ [newline] @
                 str_join [newline] (candidate_paths (local_start_directories ''/w'' (heap_with [''c'', ''x'', ''c''] 1)) (replace_backslash p))))) \<and>
           (backslash \<notin> set p \<longrightarrow> replace_backslash p = p)) \<and>
   snd (try_to_find_files two_files ''/w'' (heap_with [''c'', ''x'', ''c'']) (PyList 0) 1) =
     ([''c'', ''x'', ''/w/x'', ''x'', ''x''],
      Inl (FileNotFoundError
        (''The data file with the name x could not be found. The following paths were searched:'' @
         [CHR 0x0A] @ ''/w/x'' @ [CHR 0x0A] @ ''x'' @ [CHR 0x0A] @ ''x''))) \<and>
   fst (try_to_find_files two_files ''/w'' (heap_with [''c'', ''x'', ''c'']) (PyList 0) 1) 0 =
     [''c'', ''x'', ''c'']"
proof -
  have hyp: "\<exists>q \<in> set (heap_with [''c'', ''x'', ''c''] 0).
      \<forall>c \<in> set (candidate_paths (local_start_directories ''/w'' (heap_with [''c'', ''x'', ''c''] 1)) (replace_backslash q)). \<not> two_files c"
    by code_simp
  have res: "snd (try_to_find_files two_files ''/w'' (heap_with [''c'', ''x'', ''c'']) (PyList 0) 1) =
     ([''c'', ''x'', ''/w/x'', ''x'', ''x''],
      Inl (FileNotFoundError
        (''The data file with the name x could not be found. The following paths were searched:'' @
         [CHR 0x0A] @ ''/w/x'' @ [CHR 0x0A] @ ''x'' @ [CHR 0x0A] @ ''x'')))"
    by code_simp
  have hp: "fst (try_to_find_files two_files ''/w'' (heap_with [''c'', ''x'', ''c'']) (PyList 0) 1) 0 =
     [''c'', ''x'', ''c'']"
    by code_simp
  note t = first_unresolved_stops_batch [OF refl hyp]
  show ?thesis
    apply (intro conjI)
       apply (rule hyp)
      apply (rule t)
     apply (rule res)
    apply (rule hp)
    done
qed

text \<open>
  C8 as stated fails when the unresolved path is written with a backslash: the error
  names the spelling with a slash, and no backslash occurs anywhere in its message, so
  the nominal path as given is not named.
\<close>

theorem first_unresolved_stops_batch_counterexample:
  "snd (snd (try_to_find_files one_file ''/w'' (heap_with [''c'', windows_name]) (PyList 0) 1)) =
     Inl (FileNotFoundError
       (''The data file with the name a/b could not be found. The following paths were searched:'' @
        [CHR 0x0A] @ ''/w/a/b'' @ [CHR 0x0A] @ ''a/b'' @ [CHR 0x0A] @ ''a/b'' @ [CHR 0x0A] @
        ''/w/b'' @ [CHR 0x0A] @ ''b'' @ [CHR 0x0A] @ ''b'')) \<and>
   backslash \<notin> set
       (''The data file with the name a/b could not be found. The following paths were searched:'' @
        [CHR 0x0A] @ ''/w/a/b'' @ [CHR 0x0A] @ ''a/b'' @ [CHR 0x0A] @ ''a/b'' @ [CHR 0x0A] @
        ''/w/b'' @ [CHR 0x0A] @ ''b'' @ [CHR 0x0A] @ ''b'') \<and>
   windows_name \<in> set (heap_with [''c'', windows_name] 0) \<and>
   backslash \<in> set windows_name"
  by code_simp

text \<open>
  C2, as amended. The call changes no list but the one given as file names: every other
  list, the one of the search roots included when it is another object, is as before.
  In the list of file names exactly the elements the loop reaches are overwritten by
  their normalised forms, and the others are untouched: all of them when every element
  resolves, which is the case whenever the call returns; and otherwise the elements up
  to and including the first one none of whose candidates is a file, the later ones
  staying as they were. When no element has a backslash the heap is unchanged. A string
  or a non-iterable argument changes nothing.
\<close>

theorem inputs_after_call:
  assumes "dirs = local_start_directories cwd (h b)"
  shows
  "(\<forall>x. arg \<noteq> PyList x \<longrightarrow> fst (try_to_find_files isfile cwd h arg b) x = h x) \<and>
   (\<forall>a. arg = PyList a \<longrightarrow>
      processed isfile dirs (h a) \<le> length (h a) \<and>
      fst (try_to_find_files isfile cwd h arg b) a =
        map replace_backslash (take (processed isfile dirs (h a)) (h a)) @
        drop (processed isfile dirs (h a)) (h a) \<and>
      ((\<exists>found. snd (snd (try_to_find_files isfile cwd h arg b)) = Inr found) \<longrightarrow>
         processed isfile dirs (h a) = length (h a))) \<and>
   (\<forall>a pre p post.
      arg = PyList a \<and> h a = pre @ p # post \<and>
      (\<forall>q \<in> set pre. \<exists>x. resolved isfile dirs q = Inr x) \<and>
      (\<forall>c \<in> set (candidate_paths dirs (replace_backslash p)). \<not> isfile c) \<longrightarrow>
      processed isfile dirs (h a) = Suc (length pre) \<and>
      fst (try_to_find_files isfile cwd h arg b) a =
        map replace_backslash pre @ replace_backslash p # post) \<and>
   (\<forall>a. arg = PyList a \<and> (\<forall>q \<in> set (h a). \<exists>x. resolved isfile dirs q = Inr x) \<longrightarrow>
      processed isfile dirs (h a) = length (h a) \<and>
      fst (try_to_find_files isfile cwd h arg b) a = map replace_backslash (h a)) \<and>
   ((\<forall>a. arg = PyList a \<longrightarrow> (\<forall>p \<in> set (h a). backslash \<notin> set p)) \<longrightarrow>
      fst (try_to_find_files isfile cwd h arg b) = h)"
proof (cases "\<exists>a. arg = PyList a")
  case False
  then show ?thesis using try_not_list_heap [of arg isfile cwd h b] by simp
next
  case True
  then obtain a where a: "arg = PyList a" by blast
  let ?T = "try_to_find_files isfile cwd h (PyList a) b"
  let ?m = "processed isfile dirs (h a)"
  note ex = try_list_heap_exact [where h = h and b = b and cwd = cwd and dirs = dirs
      and isfile = isfile and a = a, OF assms]
  have hm: "fst ?T = h(a := map replace_backslash (take ?m (h a)) @ drop ?m (h a))"
    using ex by (rule conjunct1)
  have 1: "\<forall>x. arg \<noteq> PyList x \<longrightarrow> fst (try_to_find_files isfile cwd h arg b) x = h x"
    using a hm by simp
  have 2: "?m \<le> length (h a) \<and>
      fst (try_to_find_files isfile cwd h arg b) a =
        map replace_backslash (take ?m (h a)) @ drop ?m (h a) \<and>
      ((\<exists>found. snd (snd (try_to_find_files isfile cwd h arg b)) = Inr found) \<longrightarrow>
         ?m = length (h a))"
    using a ex processed_le [of isfile dirs "h a"] by simp
  have 3: "processed isfile dirs (h a) = Suc (length pre) \<and>
      fst (try_to_find_files isfile cwd h arg b) a =
        map replace_backslash pre @ replace_backslash p # post"
    if s: "h a = pre @ p # post"
      and pre: "\<forall>q \<in> set pre. \<exists>x. resolved isfile dirs q = Inr x"
      and c: "\<forall>c \<in> set (candidate_paths dirs (replace_backslash p)). \<not> isfile c"
    for pre p post
  proof -
    have "processed isfile dirs (pre @ p # post) = Suc (length pre)"
      using pre unresolved_by_candidates(1) [OF assms c] by (rule processed_first_fail)
    moreover have "fst ?T = h(a := map replace_backslash pre @ replace_backslash p # post)"
      using try_list_unresolved [OF assms s pre c] by simp
    ultimately show ?thesis using a s by simp
  qed
  have 4: "processed isfile dirs (h a) = length (h a) \<and>
      fst (try_to_find_files isfile cwd h arg b) a = map replace_backslash (h a)"
    if all: "\<forall>q \<in> set (h a). \<exists>x. resolved isfile dirs q = Inr x"
    using try_list_ok [OF assms all] processed_all [OF all] a by simp
  have 5: "fst (try_to_find_files isfile cwd h arg b) = h"
    if "\<forall>p \<in> set (h a). backslash \<notin> set p"
  proof -
    have "\<forall>p \<in> set (take ?m (h a)). backslash \<notin> set p"
      using that by (meson in_set_takeD)
    then have "map replace_backslash (take ?m (h a)) = take ?m (h a)"
      by (rule map_replace_backslash_id)
    then show ?thesis using a hm by simp
  qed
  show ?thesis using a 1 2 3 4 5 by blast
qed

text \<open>
  Two paths with a backslash when no file exists: the first is overwritten, the second
  is not, and the list of the search roots at address 1 is as before. The same list when
  both spellings are files: both elements are overwritten. A list without backslash,
  unchanged by a failing call.
\<close>

theorem inputs_after_call_witness:
  "fst (try_to_find_files no_files ''/w'' (heap_with [windows_name, windows_name]) (PyList 0) 1) 0 =
     map replace_backslash [] @ replace_backslash windows_name # [windows_name] \<and>
   fst (try_to_find_files no_files ''/w'' (heap_with [windows_name, windows_name]) (PyList 0) 1) 0 =
     [''a/b'', windows_name] \<and>
   processed no_files (local_start_directories ''/w'' (heap_with [windows_name, windows_name] 1))
     (heap_with [windows_name, windows_name] 0) = Suc (length ([] :: string list)) \<and>
   fst (try_to_find_files no_files ''/w'' (heap_with [windows_name, windows_name]) (PyList 0) 1) 1 =
     heap_with [windows_name, windows_name] 1 \<and>
   fst (try_to_find_files both_spellings ''/w'' (heap_with [windows_name, windows_name]) (PyList 0) 1) 0 =
     [''a/b'', ''a/b''] \<and>
   fst (try_to_find_files no_files ''/w'' (heap_with [''x/y'']) (PyList 0) 1) = heap_with [''x/y'']"
proof -
  note t = inputs_after_call
    [where dirs = "local_start_directories ''/w'' (heap_with [windows_name, windows_name] 1)"
      and cwd = "''/w''" and h = "heap_with [windows_name, windows_name]" and b = 1
      and arg = "PyList 0" and isfile = no_files, OF refl]
  have s: "heap_with [windows_name, windows_name] 0 = [] @ windows_name # [windows_name]"
    by code_simp
  have c: "\<forall>c \<in> set (candidate_paths
              (local_start_directories ''/w'' (heap_with [windows_name, windows_name] 1))
              (replace_backslash windows_name)). \<not> no_files c"
    by (simp add: no_files_def)
  have 13: "processed no_files (local_start_directories ''/w'' (heap_with [windows_name, windows_name] 1))
       (heap_with [windows_name, windows_name] 0) = Suc (length ([] :: string list)) \<and>
     fst (try_to_find_files no_files ''/w'' (heap_with [windows_name, windows_name]) (PyList 0) 1) 0 =
     map replace_backslash [] @ replace_backslash windows_name # [windows_name]"
    using t [THEN conjunct2, THEN conjunct2, THEN conjunct1, THEN spec, THEN spec, THEN spec,
        THEN spec, of 0 "[]" windows_name "[windows_name]"] s c
    by simp
  have 2: "fst (try_to_find_files no_files ''/w'' (heap_with [windows_name, windows_name]) (PyList 0) 1) 0 =
     [''a/b'', windows_name]"
    by code_simp
  have 4: "fst (try_to_find_files no_files ''/w'' (heap_with [windows_name, windows_name]) (PyList 0) 1) 1 =
     heap_with [windows_name, windows_name] 1"
    using t [THEN conjunct1, THEN spec, of 1] by simp
  have 5: "fst (try_to_find_files both_spellings ''/w'' (heap_with [windows_name, windows_name]) (PyList 0) 1) 0 =
     [''a/b'', ''a/b'']"
    by code_simp
  have "\<forall>a. PyList 0 = PyList a \<longrightarrow> (\<forall>p \<in> set (heap_with [''x/y''] a). backslash \<notin> set p)"
    by (simp add: heap_with_def backslash_def)
  then have 6: "fst (try_to_find_files no_files ''/w'' (heap_with [''x/y'']) (PyList 0) 1) = heap_with [''x/y'']"
    using inputs_after_call
      [where dirs = "local_start_directories ''/w'' (heap_with [''x/y''] 1)"
        and cwd = "''/w''" and h = "heap_with [''x/y'']" and b = 1
        and arg = "PyList 0" and isfile = no_files, OF refl]
    by blast
  show ?thesis using 13 2 4 5 6 by blast
qed

text \<open>
  C2 as stated fails: after a successful call on the list holding the path with a
  backslash, the list of the caller holds the spelling with a slash.
\<close>

theorem inputs_after_call_counterexample:
  "heap_with [windows_name] 0 = [windows_name] \<and>
   snd (snd (try_to_find_files both_spellings ''/w'' (heap_with [windows_name]) (PyList 0) 1)) =
     Inr [''a/b''] \<and>
   fst (try_to_find_files both_spellings ''/w'' (heap_with [windows_name]) (PyList 0) 1) 0 =
     [''a/b''] \<and>
   [''a/b''] \<noteq> [windows_name]"
  by code_simp

text \<open>
  C9. When the call on a list returns, the result has one path per element of the list,
  and its \<open>i\<close>-th path is the resolution of the \<open>i\<close>-th element; and when every
  element resolves, the call returns the list of their resolutions, in the order of
  the input.
\<close>

theorem results_in_input_order:
  assumes "dirs = local_start_directories cwd (h b)"
  shows "(snd (snd (try_to_find_files isfile cwd h (PyList a) b)) = Inr found \<longrightarrow>
            length found = length (h a) \<and>
            map Inr found = map (resolved isfile dirs) (h a)) \<and>
         ((\<forall>q \<in> set (h a). \<exists>x. resolved isfile dirs q = Inr x) \<longrightarrow>
            snd (snd (try_to_find_files isfile cwd h (PyList a) b)) =
              Inr (map (\<lambda>q. projr (resolved isfile dirs q)) (h a)))"
proof (cases "\<exists>q \<in> set (h a). \<exists>e. resolved isfile dirs q = Inl e")
  case True
  from first_unresolved [OF True]
  obtain pre p post e where s: "h a = pre @ p # post"
    and pre: "\<forall>q \<in> set pre. \<exists>x. resolved isfile dirs q = Inr x"
    and p: "resolved isfile dirs p = Inl e"
    by blast
  have "snd (snd (try_to_find_files isfile cwd h (PyList a) b)) = Inl e"
    using try_list_fail [OF assms s pre p] by simp
  moreover have "\<not> (\<forall>q \<in> set (h a). \<exists>x. resolved isfile dirs q = Inr x)"
    using s p by auto
  ultimately show ?thesis by simp
next
  case False
  then have all: "\<forall>q \<in> set (h a). \<exists>x. resolved isfile dirs q = Inr x"
    using resolved_Inr_or_Inl [of isfile dirs] by blast
  have t: "snd (snd (try_to_find_files isfile cwd h (PyList a) b)) =
      Inr (map (\<lambda>q. projr (resolved isfile dirs q)) (h a))"
    using try_list_ok [OF assms all] by simp
  have "\<forall>q \<in> set (h a). Inr (projr (resolved isfile dirs q)) = resolved isfile dirs q"
    using all by auto
  then have "map Inr (map (\<lambda>q. projr (resolved isfile dirs q)) (h a)) =
      map (resolved isfile dirs) (h a)"
    by simp
  then show ?thesis using t by auto
qed

text \<open>
  The list \<^verbatim>\<open>a/b\<close>, \<^verbatim>\<open>c\<close>, \<^verbatim>\<open>a/b\<close> when the files are \<^verbatim>\<open>/w/b\<close> and \<^verbatim>\<open>c\<close>.
\<close>

theorem results_in_input_order_witness:
  "snd (snd (try_to_find_files two_files ''/w'' (heap_with [''a/b'', ''c'', ''a/b'']) (PyList 0) 1))
     = Inr [''/w/b'', ''c'', ''/w/b''] \<and>
   length [''/w/b'', ''c'', ''/w/b''] = length (heap_with [''a/b'', ''c'', ''a/b''] 0) \<and>
   map (resolved two_files (local_start_directories ''/w'' (heap_with [''a/b'', ''c'', ''a/b''] 1)))
     (heap_with [''a/b'', ''c'', ''a/b''] 0) = [Inr ''/w/b'', Inr ''c'', Inr ''/w/b'']"
proof -
  have r: "snd (snd (try_to_find_files two_files ''/w'' (heap_with [''a/b'', ''c'', ''a/b'']) (PyList 0) 1))
    = Inr [''/w/b'', ''c'', ''/w/b'']"
    by code_simp
  show ?thesis
    using results_in_input_order [OF refl, of two_files "''/w''" "heap_with [''a/b'', ''c'', ''a/b'']" 0 1
        "[''/w/b'', ''c'', ''/w/b'']"] r
    by simp
qed

end
